theory Spec2Isabelle
  imports Complex_Main "HOL-Library.Multiset"
begin

section \<open>Data model\<close>

text \<open>
  The notebook works on two arrays: \<open>predictions_proba\<close> (dense, one row per document,
  one column per class) and \<open>X_test\<close> (the sparse TF-IDF matrix, one row per document,
  one column per vocabulary term). Both are modelled as the list of their rows. Floating
  point numbers are modelled as real numbers, so rounding is not part of the model.
  A two-dimensional array has rows of one common length; \<open>has_shape\<close> states it.
  Python exceptions are values of \<open>error\<close>.
\<close>

type_synonym matrix = "real list list"

datatype error = ValueError | IndexError

definition n_samples :: "matrix \<Rightarrow> nat" where
  "n_samples X = length X"

definition n_features :: "matrix \<Rightarrow> nat" where
  "n_features X = (case X of [] \<Rightarrow> 0 | r # _ \<Rightarrow> length r)"

definition has_shape :: "matrix \<Rightarrow> nat \<Rightarrow> nat \<Rightarrow> bool" where
  "has_shape X n d \<longleftrightarrow> length X = n \<and> list_all (\<lambda>r. length r = d) X"

definition column :: "matrix \<Rightarrow> nat \<Rightarrow> real list" where
  "column X j = map (\<lambda>r. r ! j) X"

definition bind_err :: "error + 'a \<Rightarrow> ('a \<Rightarrow> error + 'b) \<Rightarrow> error + 'b" where
  "bind_err r f = (case r of Inl e \<Rightarrow> Inl e | Inr x \<Rightarrow> f x)"

section \<open>StandardScaler\<close>

text \<open>
  \<open>StandardScaler().fit_transform\<close> and \<open>StandardScaler(with_mean=False).fit_transform\<close>
  of scikit-learn: the fitted \<open>mean_\<close> and \<open>var_\<close> are the per-column mean and the
  population variance (divisor \<open>n\<close>); \<open>scale_\<close> is the square root of \<open>var_\<close>, where
  the scaler replaces a scale of zero by one; the transform subtracts the mean (unless
  \<open>with_mean=False\<close>) and divides by the scale. An input with no row or no column is
  rejected with a ValueError.
\<close>

definition mean :: "real list \<Rightarrow> real" where
  "mean xs = sum_list xs / real (length xs)"

definition var :: "real list \<Rightarrow> real" where
  "var xs = sum_list (map (\<lambda>x. (x - mean xs)\<^sup>2) xs) / real (length xs)"

definition handle_zeros_in_scale :: "real \<Rightarrow> real" where
  "handle_zeros_in_scale s = (if s = 0 then 1 else s)"

definition scaler_mean :: "matrix \<Rightarrow> real list" where
  "scaler_mean X = map (\<lambda>j. mean (column X j)) [0..<n_features X]"

definition scaler_var :: "matrix \<Rightarrow> real list" where
  "scaler_var X = map (\<lambda>j. var (column X j)) [0..<n_features X]"

definition scaler_scale :: "matrix \<Rightarrow> real list" where
  "scaler_scale X = map (\<lambda>v. handle_zeros_in_scale (sqrt v)) (scaler_var X)"

definition fit_transform :: "bool \<Rightarrow> matrix \<Rightarrow> error + matrix" where
  "fit_transform with_mean X =
     (if n_samples X = 0 \<or> n_features X = 0 then Inl ValueError
      else Inr (map (\<lambda>row. map (\<lambda>(x, m, s). (if with_mean then x - m else x) / s)
                              (zip row (zip (scaler_mean X) (scaler_scale X)))) X))"

section \<open>Array operations\<close>

text \<open>
  \<open>v @ M\<close> for a vector and a matrix, \<open>A @ B\<close> (and \<open>A * B\<close> on scipy sparse matrices,
  which is the matrix product too), \<open>sp.sparse.diags\<close>, the comparison \<open>(M > 0) * 1.\<close>,
  \<open>argmax\<close> (the first index of the maximum) and the slice \<open>a[start:]\<close>.
\<close>

definition dot :: "real list \<Rightarrow> real list \<Rightarrow> real" where
  "dot u v = sum_list (map2 (*) u v)"

definition vecmat :: "real list \<Rightarrow> matrix \<Rightarrow> error + real list" where
  "vecmat v M =
     (if length v \<noteq> n_samples M then Inl ValueError
      else Inr (map (\<lambda>j. dot v (column M j)) [0..<n_features M]))"

definition matmul :: "matrix \<Rightarrow> matrix \<Rightarrow> error + matrix" where
  "matmul A B =
     (if n_features A \<noteq> n_samples B then Inl ValueError
      else Inr (map (\<lambda>row. map (\<lambda>j. dot row (column B j)) [0..<n_features B]) A))"

definition diags :: "real list \<Rightarrow> matrix" where
  "diags v = map (\<lambda>i. map (\<lambda>j. if i = j then v ! i else 0) [0..<length v]) [0..<length v]"

definition greater_zero :: "matrix \<Rightarrow> matrix" where
  "greater_zero M = map (map (\<lambda>x. if x > 0 then 1 else 0)) M"

fun argmax_from :: "real list \<Rightarrow> nat \<Rightarrow> nat \<Rightarrow> real \<Rightarrow> nat" where
  "argmax_from [] i best bestv = best"
| "argmax_from (x # xs) i best bestv =
     (if bestv < x then argmax_from xs (Suc i) i x else argmax_from xs (Suc i) best bestv)"

definition argmax :: "real list \<Rightarrow> error + nat" where
  "argmax xs = (case xs of [] \<Rightarrow> Inl ValueError | x # ys \<Rightarrow> Inr (argmax_from ys 1 0 x))"

definition slice_from :: "int \<Rightarrow> 'a list \<Rightarrow> 'a list" where
  "slice_from start xs =
     (let n = int (length xs);
          s = (if start < 0 then max (start + n) 0 else min start n)
      in drop (nat s) xs)"

text \<open>
  \<open>a.argsort()\<close> returns the indices that sort \<open>a\<close> in ascending order. The notebook
  calls it with numpy's default sort, which is not stable: the result is some
  permutation of the indices along which the values ascend, and the order it gives to
  the indices of equal values is not specified. \<open>is_argsort a s\<close> states that \<open>s\<close> is such
  a result, and whatever calls \<open>argsort\<close> takes the sort as a parameter. Two sorts that
  meet the contract: \<open>argsort_stable\<close> keeps equal values in ascending index order,
  \<open>argsort_ties_reversed\<close> puts them in descending index order.
\<close>

definition is_argsort :: "real list \<Rightarrow> nat list \<Rightarrow> bool" where
  "is_argsort xs s \<longleftrightarrow> mset s = mset [0..<length xs] \<and> sorted (map (\<lambda>i. xs ! i) s)"

definition argsort_stable :: "real list \<Rightarrow> nat list" where
  "argsort_stable xs = sort_key (\<lambda>i. xs ! i) [0..<length xs]"

definition argsort_ties_reversed :: "real list \<Rightarrow> nat list" where
  "argsort_ties_reversed xs = sort_key (\<lambda>i. xs ! i) (rev [0..<length xs])"

section \<open>The notebook\<close>

text \<open>
  The cell that renders the model interpretable:
  \<^verbatim>\<open>labels_normalized = StandardScaler().fit_transform(predictions_proba)\<close>,
  \<^verbatim>\<open>data_scaled = StandardScaler(with_mean=False).fit_transform(X_test)\<close>,
  \<^verbatim>\<open>prediction_sign = -np.sign(predictions_proba.argmax(axis=1) - .5)\<close>,
  \<^verbatim>\<open>pattern = labels_normalized[:,0].T @ data_scaled\<close>.
\<close>

definition labels_normalized :: "matrix \<Rightarrow> error + matrix" where
  "labels_normalized predictions_proba = fit_transform True predictions_proba"

definition data_scaled :: "matrix \<Rightarrow> error + matrix" where
  "data_scaled X_test = fit_transform False X_test"

fun argmax_rows :: "matrix \<Rightarrow> error + nat list" where
  "argmax_rows [] = Inr []"
| "argmax_rows (r # rs) =
     bind_err (argmax r) (\<lambda>a. bind_err (argmax_rows rs) (\<lambda>as. Inr (a # as)))"

definition prediction_sign :: "matrix \<Rightarrow> error + real list" where
  "prediction_sign predictions_proba =
     bind_err (argmax_rows predictions_proba)
       (\<lambda>as. Inr (map (\<lambda>a. - sgn (real a - 1 / 2)) as))"

definition pattern :: "matrix \<Rightarrow> matrix \<Rightarrow> error + real list" where
  "pattern predictions_proba X_test =
     bind_err (labels_normalized predictions_proba) (\<lambda>lab.
     bind_err (data_scaled X_test) (\<lambda>ds.
       vecmat (column lab 0) ds))"

text \<open>
  The cell that explains single predictions, as a function of the three variables it
  reads:
  \<^verbatim>\<open>word_scores = sp.sparse.diags(prediction_sign) * ((data_scaled>0)*1.) @ sp.sparse.diags(pattern)\<close>
  and, for the row \<open>idx\<close> of a sampled document,
  \<^verbatim>\<open>top_words = word_scores[idx,:].toarray().flatten().argsort()[-top_what:][::-1]\<close>.
\<close>

definition word_scores :: "real list \<Rightarrow> matrix \<Rightarrow> real list \<Rightarrow> error + matrix" where
  "word_scores sign ds pat =
     bind_err (matmul (diags sign) (greater_zero ds)) (\<lambda>m. matmul m (diags pat))"

definition top_words ::
  "(real list \<Rightarrow> nat list) \<Rightarrow> matrix \<Rightarrow> nat \<Rightarrow> int \<Rightarrow> error + nat list" where
  "top_words argsort ws idx top_what =
     (if idx < length ws then Inr (rev (slice_from (- top_what) (argsort (ws ! idx))))
      else Inl IndexError)"

text \<open>
  Reordering the documents: \<open>take_rows perm X\<close> is numpy's \<open>X[perm]\<close>, the rows of \<open>X\<close>
  in the order given by the index list \<open>perm\<close>. The notebook does not call it; it states
  what a joint row permutation of the two inputs is.
\<close>

definition take_rows :: "nat list \<Rightarrow> matrix \<Rightarrow> matrix" where
  "take_rows perm X = map (\<lambda>k. X ! k) perm"

section \<open>Shapes, columns and products\<close>

lemma has_shape_dims:
  assumes "has_shape X n d" "0 < n"
  shows "n_samples X = n" "n_features X = d" "X \<noteq> []"
  using assms by (auto simp: has_shape_def n_samples_def n_features_def split: list.splits)

lemma has_shape_row:
  assumes "has_shape X n d" "i < n"
  shows "length (X ! i) = d"
  using assms by (auto simp: has_shape_def list_all_length)

lemma length_column: "length (column X j) = length X"
  by (simp add: column_def)

lemma nth_column: "i < length X \<Longrightarrow> column X j ! i = X ! i ! j"
  by (simp add: column_def)

lemma dot_sum:
  assumes "length u = length v"
  shows "dot u v = (\<Sum>i<length u. u ! i * v ! i)"
proof -
  have "map2 (*) u v = map (\<lambda>i. u ! i * v ! i) [0..<length u]"
    using assms by (intro nth_equalityI) simp_all
  then have "dot u v = sum_list (map (\<lambda>i. u ! i * v ! i) [0..<length u])"
    by (simp add: dot_def)
  also have "\<dots> = (\<Sum>i<length u. u ! i * v ! i)"
    by (simp add: interv_sum_list_conv_sum_set_nat atLeast0LessThan)
  finally show ?thesis .
qed

lemma sum_list_uminus: "sum_list (map uminus xs) = - sum_list (xs :: real list)"
  by (induction xs) simp_all

lemma dot_uminus: "dot (map uminus u) v = - dot u v"
proof -
  have "map2 (*) (map uminus u) v = map uminus (map2 (*) u v)"
    by (simp add: zip_map1 case_prod_beta)
  then have "dot (map uminus u) v = sum_list (map uminus (map2 (*) u v))"
    by (simp only: dot_def)
  then show ?thesis
    by (simp only: sum_list_uminus dot_def)
qed

lemma n_features_map_uminus: "n_features (map (map uminus) A) = n_features A"
  by (cases A) (simp_all add: n_features_def)

lemma matmul_uminus:
  "matmul (map (map uminus) A) B = map_sum id (map (map uminus)) (matmul A B)"
  by (simp add: matmul_def n_features_map_uminus dot_uminus comp_def)

lemma diags_uminus: "diags (map uminus v) = map (map uminus) (diags v)"
  by (simp add: diags_def)

section \<open>Sign of the prediction\<close>

text \<open>
  Claim C8. For every feature matrix and pattern, the relevance scores computed with the
  negated prediction signs are the exact elementwise negation of the scores computed
  with the signs themselves; in particular the relevance vector of one feature row
  with sign \<open>-1\<close> is the negation of its relevance vector with sign \<open>+1\<close>.
  Both computations fail, with the same error, on the same inputs.
\<close>

theorem word_scores_sign_negation:
  "word_scores (map uminus sign) ds pat
     = map_sum id (map (map uminus)) (word_scores sign ds pat)
   \<and> word_scores [- 1] [feature_row] pat
     = map_sum id (map (map uminus)) (word_scores [1] [feature_row] pat)"
proof -
  have neg: "word_scores (map uminus s) ds' pat
     = map_sum id (map (map uminus)) (word_scores s ds' pat)" for s ds'
    by (cases "matmul (diags s) (greater_zero ds')")
       (simp_all add: word_scores_def bind_err_def diags_uminus matmul_uminus)
  from neg [of "[1]" "[feature_row]"] neg [of sign ds] show ?thesis by simp
qed

section \<open>Products with diagonal matrices\<close>

lemma n_features_diags: "n_features (diags v) = length v"
  by (cases v) (simp_all add: diags_def n_features_def upt_conv_Cons del: upt_Suc)

lemma n_samples_diags: "n_samples (diags v) = length v"
  by (simp add: diags_def n_samples_def)

lemma length_diags: "length (diags v) = length v"
  by (simp add: diags_def)

lemma nth_diags: "i < length v \<Longrightarrow> j < length v \<Longrightarrow> diags v ! i ! j = (if i = j then v ! i else 0)"
  by (simp add: diags_def)

lemma dot_diags_row:
  assumes "i < length s" "length c = length s"
  shows "dot (diags s ! i) c = s ! i * c ! i"
proof -
  have len: "length (diags s ! i) = length c"
    using assms by (simp add: diags_def)
  have "dot (diags s ! i) c = (\<Sum>k<length s. diags s ! i ! k * c ! k)"
    using dot_sum [OF len] assms by (simp add: diags_def)
  also have "\<dots> = (\<Sum>k<length s. if k = i then s ! i * c ! i else 0)"
    using assms by (intro sum.cong) (auto simp: nth_diags)
  also have "\<dots> = s ! i * c ! i"
    using assms by simp
  finally show ?thesis .
qed

lemma dot_diags_column:
  assumes "j < length p" "length row = length p"
  shows "dot row (column (diags p) j) = row ! j * p ! j"
proof -
  have len: "length row = length (column (diags p) j)"
    using assms by (simp add: length_column diags_def)
  have "dot row (column (diags p) j) = (\<Sum>k<length p. row ! k * column (diags p) j ! k)"
    using dot_sum [OF len] assms by simp
  also have "\<dots> = (\<Sum>k<length p. if k = j then row ! j * p ! j else 0)"
    using assms by (intro sum.cong) (auto simp: nth_column nth_diags diags_def)
  also have "\<dots> = row ! j * p ! j"
    using assms by simp
  finally show ?thesis .
qed

lemma matmul_diags_left:
  assumes "has_shape B n d" "0 < n" "length s = n"
  shows "matmul (diags s) B = Inr (map (\<lambda>i. map (\<lambda>j. s ! i * B ! i ! j) [0..<d]) [0..<n])"
proof -
  have dims: "n_samples B = n" "n_features B = d" "length B = n"
    using has_shape_dims [OF assms(1,2)] assms(1) by (simp_all add: has_shape_def)
  have "map (\<lambda>row. map (\<lambda>j. dot row (column B j)) [0..<d]) (diags s)
      = map (\<lambda>i. map (\<lambda>j. s ! i * B ! i ! j) [0..<d]) [0..<n]"
  proof (rule nth_equalityI)
    show "length (map (\<lambda>row. map (\<lambda>j. dot row (column B j)) [0..<d]) (diags s))
        = length (map (\<lambda>i. map (\<lambda>j. s ! i * B ! i ! j) [0..<d]) [0..<n])"
      using assms by (simp add: length_diags)
  next
    fix i assume "i < length (map (\<lambda>row. map (\<lambda>j. dot row (column B j)) [0..<d]) (diags s))"
    then have i: "i < n" using assms by (simp add: length_diags)
    have "dot (diags s ! i) (column B j) = s ! i * B ! i ! j" for j
      using dot_diags_row [of i s "column B j"] i assms dims
      by (simp add: length_column nth_column)
    then show "map (\<lambda>row. map (\<lambda>j. dot row (column B j)) [0..<d]) (diags s) ! i
        = map (\<lambda>i. map (\<lambda>j. s ! i * B ! i ! j) [0..<d]) [0..<n] ! i"
      using i assms by (simp add: length_diags)
  qed
  then show ?thesis
    using dims assms by (simp add: matmul_def n_features_diags)
qed

lemma matmul_diags_right:
  assumes "has_shape A n d" "0 < n" "length p = d"
  shows "matmul A (diags p) = Inr (map (\<lambda>row. map (\<lambda>j. row ! j * p ! j) [0..<d]) A)"
proof -
  have dims: "n_features A = d"
    using has_shape_dims [OF assms(1,2)] by simp
  have rows: "length row = d" if "row \<in> set A" for row
    using that assms(1) by (auto simp: has_shape_def list_all_iff)
  have "map (\<lambda>j. dot row (column (diags p) j)) [0..<d] = map (\<lambda>j. row ! j * p ! j) [0..<d]"
    if "row \<in> set A" for row
    using dot_diags_column [of _ p row] rows [OF that] assms(3) by simp
  then show ?thesis
    using dims assms by (simp add: matmul_def n_features_diags n_samples_diags)
qed

lemma has_shape_greater_zero: "has_shape ds n d \<Longrightarrow> has_shape (greater_zero ds) n d"
  by (simp add: has_shape_def greater_zero_def list_all_iff)

lemma word_scores_closed_form:
  assumes "has_shape ds n d" "0 < n" "length sign = n" "length pat = d"
  shows "word_scores sign ds pat
       = Inr (map (\<lambda>i. map (\<lambda>j. sign ! i * (if ds ! i ! j > 0 then 1 else 0) * pat ! j) [0..<d])
                  [0..<n])"
proof -
  let ?m = "map (\<lambda>i. map (\<lambda>j. sign ! i * greater_zero ds ! i ! j) [0..<d]) [0..<n]"
  have gz: "has_shape (greater_zero ds) n d"
    by (rule has_shape_greater_zero [OF assms(1)])
  have left: "matmul (diags sign) (greater_zero ds) = Inr ?m"
    by (rule matmul_diags_left [OF gz assms(2,3)])
  have shape_m: "has_shape ?m n d"
    by (simp add: has_shape_def list_all_iff)
  have right: "matmul ?m (diags pat) = Inr (map (\<lambda>row. map (\<lambda>j. row ! j * pat ! j) [0..<d]) ?m)"
    by (rule matmul_diags_right [OF shape_m assms(2,4)])
  have entry: "greater_zero ds ! i ! j = (if ds ! i ! j > 0 then 1 else 0)" if "i < n" "j < d" for i j
    using that assms(1) has_shape_row [OF assms(1) that(1)]
    by (simp add: greater_zero_def has_shape_def)
  have "map (\<lambda>row. map (\<lambda>j. row ! j * pat ! j) [0..<d]) ?m
      = map (\<lambda>i. map (\<lambda>j. sign ! i * (if ds ! i ! j > 0 then 1 else 0) * pat ! j) [0..<d]) [0..<n]"
    by (simp add: entry)
  then show ?thesis
    using left right by (simp add: word_scores_def bind_err_def)
qed

section \<open>Mean, variance and the scaler\<close>

lemma var_nonneg: "0 \<le> var xs"
  unfolding var_def by (intro divide_nonneg_nonneg sum_list_nonneg) auto

lemma scale_pos: "0 < handle_zeros_in_scale (sqrt (var xs))"
  using var_nonneg [of xs] by (auto simp: handle_zeros_in_scale_def less_le)

lemma scale_square:
  "var xs \<noteq> 0 \<Longrightarrow> (handle_zeros_in_scale (sqrt (var xs)))\<^sup>2 = var xs"
  using var_nonneg [of xs] by (simp add: handle_zeros_in_scale_def)

lemma scale_zero_var: "var xs = 0 \<Longrightarrow> handle_zeros_in_scale (sqrt (var xs)) = 1"
  by (simp add: handle_zeros_in_scale_def)

lemma sum_list_affine:
  "sum_list (map (\<lambda>x. a * x + b) xs) = a * sum_list xs + real (length xs) * (b :: real)"
  by (induction xs) (simp_all add: algebra_simps)

lemma mean_affine:
  assumes "xs \<noteq> []"
  shows "mean (map (\<lambda>x. a * x + b) xs) = a * mean xs + b"
proof -
  have "mean (map (\<lambda>x. a * x + b) xs) = (a * sum_list xs + real (length xs) * b) / real (length xs)"
    by (simp only: mean_def sum_list_affine length_map)
  also have "\<dots> = a * mean xs + b"
    using assms by (simp add: mean_def field_simps)
  finally show ?thesis .
qed

lemma var_affine:
  assumes "xs \<noteq> []"
  shows "var (map (\<lambda>x. a * x + b) xs) = a\<^sup>2 * var xs"
proof -
  have "(a * x + b - (a * mean xs + b))\<^sup>2 = a\<^sup>2 * (x - mean xs)\<^sup>2" for x
    by (simp add: power2_eq_square algebra_simps)
  then have "sum_list (map (\<lambda>x. (x - mean (map (\<lambda>x. a * x + b) xs))\<^sup>2) (map (\<lambda>x. a * x + b) xs))
      = sum_list (map (\<lambda>x. a\<^sup>2 * (x - mean xs)\<^sup>2) xs)"
    by (simp add: mean_affine [OF assms] comp_def)
  also have "\<dots> = a\<^sup>2 * sum_list (map (\<lambda>x. (x - mean xs)\<^sup>2) xs)"
    by (simp add: sum_list_const_mult)
  finally show ?thesis
    by (simp add: var_def)
qed

lemma var_zero_iff:
  assumes "xs \<noteq> []"
  shows "var xs = 0 \<longleftrightarrow> (\<forall>x\<in>set xs. x = mean xs)"
proof -
  have "var xs = 0 \<longleftrightarrow> sum_list (map (\<lambda>x. (x - mean xs)\<^sup>2) xs) = 0"
    using assms by (simp add: var_def)
  also have "\<dots> \<longleftrightarrow> (\<forall>y\<in>set (map (\<lambda>x. (x - mean xs)\<^sup>2) xs). y = 0)"
    by (intro sum_list_nonneg_eq_0_iff) auto
  also have "\<dots> \<longleftrightarrow> (\<forall>x\<in>set xs. x = mean xs)"
    by auto
  finally show ?thesis .
qed

lemma fit_transform_rows:
  assumes "has_shape X n d" "0 < n" "0 < d"
  shows "fit_transform with_mean X
       = Inr (map (\<lambda>row. map (\<lambda>j. (if with_mean then row ! j - mean (column X j) else row ! j)
                                    / handle_zeros_in_scale (sqrt (var (column X j))))
                              [0..<d]) X)"
proof -
  have dims: "n_samples X = n" "n_features X = d"
    using has_shape_dims [OF assms(1,2)] by simp_all
  have "map (\<lambda>(x, m, s). (if with_mean then x - m else x) / s)
            (zip row (zip (scaler_mean X) (scaler_scale X)))
      = map (\<lambda>j. (if with_mean then row ! j - mean (column X j) else row ! j)
                  / handle_zeros_in_scale (sqrt (var (column X j)))) [0..<d]"
    if "row \<in> set X" for row
  proof -
    have "length row = d"
      using that assms(1) by (auto simp: has_shape_def list_all_iff)
    then show ?thesis
      using dims by (intro nth_equalityI)
        (simp_all add: scaler_mean_def scaler_scale_def scaler_var_def)
  qed
  then show ?thesis
    using dims assms by (simp add: fit_transform_def)
qed

lemma fit_transform_shape:
  assumes "has_shape X n d" "0 < n" "0 < d" "fit_transform with_mean X = Inr Y"
  shows "has_shape Y n d"
  using assms fit_transform_rows [OF assms(1-3), of with_mean]
  by (auto simp: has_shape_def list_all_iff)

lemma fit_transform_entry:
  assumes "has_shape X n d" "0 < n" "0 < d" "fit_transform with_mean X = Inr Y" "i < n" "j < d"
  shows "Y ! i ! j = (if with_mean then X ! i ! j - mean (column X j) else X ! i ! j)
                     / handle_zeros_in_scale (sqrt (var (column X j)))"
  using assms fit_transform_rows [OF assms(1-3), of with_mean]
  by (auto simp: has_shape_def)

lemma fit_transform_column:
  assumes "has_shape X n d" "0 < n" "0 < d" "fit_transform with_mean X = Inr Y" "j < d"
  shows "column Y j = map (\<lambda>x. (1 / handle_zeros_in_scale (sqrt (var (column X j)))) * x
                             + (if with_mean then - mean (column X j)
                                   / handle_zeros_in_scale (sqrt (var (column X j))) else 0))
                         (column X j)"
  using assms fit_transform_rows [OF assms(1-3), of with_mean]
  by (auto simp: column_def diff_divide_distrib)

lemma column_nonempty: "has_shape X n d \<Longrightarrow> 0 < n \<Longrightarrow> column X j \<noteq> []"
  by (auto simp: column_def has_shape_def)

lemma scaled_column_mean:
  assumes "has_shape X n d" "0 < n" "0 < d" "fit_transform True X = Inr Y" "j < d"
  shows "mean (column Y j) = 0"
proof -
  have "mean (column Y j)
      = (1 / handle_zeros_in_scale (sqrt (var (column X j)))) * mean (column X j)
        + (if True then - mean (column X j) / handle_zeros_in_scale (sqrt (var (column X j)))
           else 0)"
    unfolding fit_transform_column [OF assms]
    by (rule mean_affine [OF column_nonempty [OF assms(1,2)]])
  then show ?thesis by simp
qed

lemma scaled_column_var:
  assumes "has_shape X n d" "0 < n" "0 < d" "fit_transform with_mean X = Inr Y" "j < d"
  shows "var (column Y j) = (if var (column X j) = 0 then 0 else 1)"
proof -
  let ?s = "handle_zeros_in_scale (sqrt (var (column X j)))"
  have "var (column Y j) = (1 / ?s)\<^sup>2 * var (column X j)"
    unfolding fit_transform_column [OF assms]
    by (rule var_affine [OF column_nonempty [OF assms(1,2)]])
  also have "\<dots> = (if var (column X j) = 0 then 0 else 1)"
    using scale_square [of "column X j"] by (simp add: power_divide)
  finally show ?thesis .
qed

lemma fit_transform_succeeds:
  assumes "has_shape X n d" "0 < n" "0 < d"
  shows "\<exists>Y. fit_transform with_mean X = Inr Y"
  using fit_transform_rows [OF assms] by blast

lemma greater_zero_scaled:
  assumes "has_shape X n d" "0 < n" "0 < d" "fit_transform False X = Inr ds"
  shows "greater_zero ds = greater_zero X"
proof -
  have "(if 0 < row ! j / handle_zeros_in_scale (sqrt (var (column X j))) then 1 else 0)
      = (if 0 < row ! j then 1 else (0::real))" for row j
    using scale_pos [of "column X j"] by (simp add: zero_less_divide_iff)
  moreover have "map (\<lambda>j. if 0 < row ! j then 1 else (0::real)) [0..<d]
      = map (\<lambda>x. if 0 < x then 1 else 0) row" if "row \<in> set X" for row
  proof -
    have "length row = d"
      using that assms(1) by (auto simp: has_shape_def list_all_iff)
    then show ?thesis by (intro nth_equalityI) simp_all
  qed
  ultimately show ?thesis
    using assms(4) fit_transform_rows [OF assms(1-3), of False]
    by (auto simp: greater_zero_def comp_def)
qed

section \<open>The pattern as a sum over documents\<close>

lemma vecmat_sum:
  assumes "has_shape M n d" "0 < n" "length v = n"
  shows "vecmat v M = Inr (map (\<lambda>j. \<Sum>i<n. v ! i * M ! i ! j) [0..<d])"
proof -
  have dims: "n_samples M = n" "n_features M = d" "length M = n"
    using has_shape_dims [OF assms(1,2)] assms(1) by (simp_all add: has_shape_def)
  have "dot v (column M j) = (\<Sum>i<n. v ! i * M ! i ! j)" for j
    using dot_sum [of v "column M j"] assms(3) dims by (simp add: length_column nth_column)
  then show ?thesis
    using dims assms(3) by (simp add: vecmat_def)
qed

lemma pattern_closed_form:
  assumes "has_shape P n m" "has_shape X n d" "0 < n" "0 < m" "0 < d"
    and "labels_normalized P = Inr lab" "data_scaled X = Inr ds"
  shows "pattern P X = Inr (map (\<lambda>j. \<Sum>i<n. lab ! i ! 0 * ds ! i ! j) [0..<d])"
proof -
  have lab: "has_shape lab n m"
    using fit_transform_shape [OF assms(1,3,4)] assms(6) by (simp add: labels_normalized_def)
  have ds: "has_shape ds n d"
    using fit_transform_shape [OF assms(2,3,5)] assms(7) by (simp add: data_scaled_def)
  have len: "length (column lab 0) = n"
    using lab by (simp add: length_column has_shape_def)
  have "vecmat (column lab 0) ds = Inr (map (\<lambda>j. \<Sum>i<n. column lab 0 ! i * ds ! i ! j) [0..<d])"
    by (rule vecmat_sum [OF ds assms(3) len])
  also have "\<dots> = Inr (map (\<lambda>j. \<Sum>i<n. lab ! i ! 0 * ds ! i ! j) [0..<d])"
    using lab by (simp add: nth_column has_shape_def)
  finally show ?thesis
    using assms(6,7) by (simp add: pattern_def bind_err_def)
qed

lemma handle_zeros_sqrt:
  "handle_zeros_in_scale (sqrt (var xs)) = (if var xs = 0 then 1 else sqrt (var xs))"
  by (simp add: handle_zeros_in_scale_def)

lemma fit_transform_fixed:
  assumes "has_shape Y n d" "0 < n" "0 < d"
    and "\<forall>j<d. var (column Y j) = 0 \<or> var (column Y j) = 1"
  shows "fit_transform False Y = Inr Y"
proof -
  have scale: "handle_zeros_in_scale (sqrt (var (column Y j))) = 1" if "j < d" for j
    using assms(4) that by (auto simp: handle_zeros_in_scale_def)
  have "map (\<lambda>j. row ! j / handle_zeros_in_scale (sqrt (var (column Y j)))) [0..<d] = row"
    if "row \<in> set Y" for row
  proof -
    have "length row = d"
      using that assms(1) by (auto simp: has_shape_def list_all_iff)
    then show ?thesis
      by (intro nth_equalityI) (simp_all add: scale)
  qed
  then have "map (\<lambda>row. map (\<lambda>j. row ! j / handle_zeros_in_scale (sqrt (var (column Y j))))
                            [0..<d]) Y = Y"
    by (simp add: map_idI)
  then show ?thesis
    using fit_transform_rows [OF assms(1-3), of False] by simp
qed

section \<open>Reordering the documents\<close>

lemma sum_list_mset_cong:
  assumes "mset xs = mset ys"
  shows "sum_list (map f xs) = sum_list (map f (ys :: 'a list) :: real list)"
proof -
  have "sum_list (map f xs) = sum_mset (image_mset f (mset xs))"
    by (metis mset_map sum_mset_sum_list)
  also have "\<dots> = sum_mset (image_mset f (mset ys))"
    by (simp add: assms)
  also have "\<dots> = sum_list (map f ys)"
    by (metis mset_map sum_mset_sum_list)
  finally show ?thesis .
qed

lemma mean_mset:
  assumes "mset xs = mset ys"
  shows "mean xs = mean ys"
  using sum_list_mset_cong [OF assms, of "\<lambda>x. x"] mset_eq_length [OF assms]
  by (simp add: mean_def)

lemma var_mset:
  assumes "mset xs = mset ys"
  shows "var xs = var ys"
  using sum_list_mset_cong [OF assms, of "\<lambda>x. (x - mean ys)\<^sup>2"] mset_eq_length [OF assms]
    mean_mset [OF assms]
  by (simp add: var_def)

lemma sum_reindex_perm:
  assumes "mset perm = mset [0..<n]"
  shows "(\<Sum>i<n. h (perm ! i)) = (\<Sum>k<n. h k :: real)"
proof -
  have len: "length perm = n"
    using mset_eq_length [OF assms] by simp
  have "(\<Sum>i<n. h (perm ! i)) = sum_list (map (\<lambda>i. h (perm ! i)) [0..<n])"
    by (simp add: interv_sum_list_conv_sum_set_nat atLeast0LessThan)
  also have "map (\<lambda>i. h (perm ! i)) [0..<n] = map h perm"
    using len by (intro nth_equalityI) simp_all
  also have "sum_list (map h perm) = sum_list (map h [0..<n])"
    by (rule sum_list_mset_cong [OF assms])
  also have "\<dots> = (\<Sum>k<n. h k)"
    by (simp add: interv_sum_list_conv_sum_set_nat atLeast0LessThan)
  finally show ?thesis .
qed

lemma perm_bounds:
  assumes "mset perm = mset [0..<n]"
  shows "length perm = n" "\<forall>k\<in>set perm. k < n"
proof -
  show "length perm = n"
    using mset_eq_length [OF assms] by simp
  have "set perm = set [0..<n]"
    using mset_eq_setD [OF assms] .
  then show "\<forall>k\<in>set perm. k < n" by simp
qed

lemma take_rows_shape:
  assumes "has_shape X n d" "mset perm = mset [0..<n]"
  shows "has_shape (take_rows perm X) n d"
  using assms(1) perm_bounds [OF assms(2)]
  by (auto simp: has_shape_def take_rows_def list_all_length)

lemma take_rows_nth:
  assumes "mset perm = mset [0..<n]" "i < n"
  shows "take_rows perm X ! i = X ! (perm ! i)"
  using perm_bounds [OF assms(1)] assms(2) by (simp add: take_rows_def)

lemma take_rows_column:
  assumes "has_shape X n d" "mset perm = mset [0..<n]"
  shows "mset (column (take_rows perm X) j) = mset (column X j)"
proof -
  have len: "length X = n"
    using assms(1) by (simp add: has_shape_def)
  have "column (take_rows perm X) j = map (\<lambda>k. column X j ! k) perm"
    using perm_bounds [OF assms(2)] len by (simp add: column_def take_rows_def)
  then have "mset (column (take_rows perm X) j) = image_mset (\<lambda>k. column X j ! k) (mset [0..<n])"
    using assms(2) by (metis mset_map)
  also have "\<dots> = mset (map (\<lambda>k. column X j ! k) [0..<length (column X j)])"
    using len by (simp add: length_column)
  also have "\<dots> = mset (column X j)"
    by (simp only: map_nth)
  finally show ?thesis .
qed

lemma pattern_explicit:
  assumes "has_shape P n m" "has_shape X n d" "0 < n" "0 < m" "0 < d"
  shows "pattern P X = Inr (map (\<lambda>j. \<Sum>i<n.
            (P ! i ! 0 - mean (column P 0)) / handle_zeros_in_scale (sqrt (var (column P 0)))
            * (X ! i ! j / handle_zeros_in_scale (sqrt (var (column X j))))) [0..<d])"
proof -
  obtain lab where lab: "fit_transform True P = Inr lab"
    using fit_transform_succeeds [OF assms(1,3,4)] by blast
  obtain ds where ds: "fit_transform False X = Inr ds"
    using fit_transform_succeeds [OF assms(2,3,5)] by blast
  have "lab ! i ! 0 * ds ! i ! j
      = (P ! i ! 0 - mean (column P 0)) / handle_zeros_in_scale (sqrt (var (column P 0)))
        * (X ! i ! j / handle_zeros_in_scale (sqrt (var (column X j))))"
    if "i < n" "j < d" for i j
    using fit_transform_entry [OF assms(1,3,4) lab that(1) assms(4)]
          fit_transform_entry [OF assms(2,3,5) ds that]
    by simp
  then have "map (\<lambda>j. \<Sum>i<n. lab ! i ! 0 * ds ! i ! j) [0..<d]
      = map (\<lambda>j. \<Sum>i<n.
            (P ! i ! 0 - mean (column P 0)) / handle_zeros_in_scale (sqrt (var (column P 0)))
            * (X ! i ! j / handle_zeros_in_scale (sqrt (var (column X j))))) [0..<d]"
    by simp
  then show ?thesis
    using pattern_closed_form [OF assms] lab ds
    by (simp add: labels_normalized_def data_scaled_def)
qed

section \<open>Sorting the scores\<close>

lemma argsort_stable_admissible: "is_argsort xs (argsort_stable xs)"
  by (simp add: is_argsort_def argsort_stable_def)

lemma argsort_ties_reversed_admissible: "is_argsort xs (argsort_ties_reversed xs)"
  by (simp add: is_argsort_def argsort_ties_reversed_def)

lemma is_argsort_length: "is_argsort xs s \<Longrightarrow> length s = length xs"
  using mset_eq_length [of s "[0..<length xs]"] by (simp add: is_argsort_def)

lemma is_argsort_set: "is_argsort xs s \<Longrightarrow> set s = {0..<length xs}"
  using mset_eq_setD [of s "[0..<length xs]"] by (simp add: is_argsort_def)

lemma is_argsort_distinct: "is_argsort xs s \<Longrightarrow> distinct s"
  using mset_eq_imp_distinct_iff [of s "[0..<length xs]"] by (simp add: is_argsort_def)

lemma is_argsort_ascending:
  "is_argsort xs s \<Longrightarrow> sorted_wrt (\<lambda>i j. xs ! i \<le> xs ! j) s"
  by (simp add: is_argsort_def sorted_map)

lemma slice_from_neg:
  "slice_from (- k) xs =
     (if 0 < k then drop (length xs - nat k) xs else drop (nat (- k)) xs)"
  by (auto simp: slice_from_def Let_def max_def min_def nat_diff_distrib' intro: arg_cong2 [of _ _ _ _ drop])

lemma top_words_drop:
  assumes "idx < length ws" "is_argsort (ws ! idx) (argsort (ws ! idx))"
  shows "top_words argsort ws idx k
       = Inr (rev (drop (if 0 < k then length (ws ! idx) - nat k else nat (- k))
                        (argsort (ws ! idx))))"
  using assms by (simp add: top_words_def slice_from_neg is_argsort_length)

lemma rev_drop_properties:
  assumes "is_argsort xs s"
  shows "distinct (rev (drop m s))"
    and "\<forall>i\<in>set (rev (drop m s)). i < length xs"
    and "length (rev (drop m s)) = length xs - m"
    and "\<forall>a b. a < b \<and> b < length (rev (drop m s))
           \<longrightarrow> xs ! (rev (drop m s) ! b) \<le> xs ! (rev (drop m s) ! a)"
    and "\<forall>j<length xs. j \<notin> set (rev (drop m s))
           \<longrightarrow> (\<forall>i\<in>set (rev (drop m s)). xs ! j \<le> xs ! i)"
proof -
  let ?R = "\<lambda>i j. xs ! i \<le> xs ! j"
  show "distinct (rev (drop m s))"
    using is_argsort_distinct [OF assms] by simp
  show "\<forall>i\<in>set (rev (drop m s)). i < length xs"
    using set_drop_subset [of m s] is_argsort_set [OF assms] by auto
  show "length (rev (drop m s)) = length xs - m"
    using is_argsort_length [OF assms] by simp
  have "sorted_wrt ?R (drop m s)"
    by (rule sorted_wrt_drop [OF is_argsort_ascending [OF assms]])
  then have "sorted_wrt (\<lambda>i j. ?R j i) (rev (drop m s))"
    by (simp add: sorted_wrt_rev)
  then show "\<forall>a b. a < b \<and> b < length (rev (drop m s))
           \<longrightarrow> xs ! (rev (drop m s) ! b) \<le> xs ! (rev (drop m s) ! a)"
    by (simp add: sorted_wrt_iff_nth_less)
  have split: "sorted_wrt ?R (take m s @ drop m s)"
    using is_argsort_ascending [OF assms] by simp
  show "\<forall>j<length xs. j \<notin> set (rev (drop m s))
           \<longrightarrow> (\<forall>i\<in>set (rev (drop m s)). xs ! j \<le> xs ! i)"
  proof (intro allI impI ballI)
    fix j i assume j: "j < length xs" "j \<notin> set (rev (drop m s))"
      and i: "i \<in> set (rev (drop m s))"
    have "j \<in> set s"
      using j(1) is_argsort_set [OF assms] by simp
    then have "j \<in> set (take m s) \<union> set (drop m s)"
      by (metis append_take_drop_id set_append)
    then have "j \<in> set (take m s)"
      using j(2) by simp
    with i split show "xs ! j \<le> xs ! i"
      unfolding sorted_wrt_append by simp
  qed
qed

lemma distinct_indices_reach_zero:
  assumes "distinct tw" "\<forall>i\<in>set tw. i < length xs"
    and "length (filter (\<lambda>x. x \<noteq> 0) xs) < length tw"
  shows "\<exists>i\<in>set tw. xs ! i = (0::real)"
proof (rule ccontr)
  assume "\<not> (\<exists>i\<in>set tw. xs ! i = 0)"
  then have "set tw \<subseteq> {i. i < length xs \<and> xs ! i \<noteq> 0}"
    using assms(2) by auto
  then have "card (set tw) \<le> card {i. i < length xs \<and> xs ! i \<noteq> 0}"
    by (intro card_mono) simp_all
  then have "length tw \<le> length (filter (\<lambda>x. x \<noteq> 0) xs)"
    using assms(1) by (simp add: distinct_card length_filter_conv_card)
  with assms(3) show False by simp
qed

section \<open>Worked inputs\<close>

text \<open>The scalers evaluated on a small prediction matrix and a small feature matrix.\<close>

lemmas scaler_eval = fit_transform_def n_samples_def n_features_def scaler_mean_def
  scaler_scale_def scaler_var_def column_def mean_def var_def handle_zeros_in_scale_def

lemma data_scaled_example:
  "data_scaled [[0, 1, 2], [4, 1, 0]] = Inr [[0, 1, 2], [2, 1, 0]]"
  by (simp add: data_scaled_def scaler_eval upt_rec)

lemma labels_normalized_example:
  "labels_normalized [[1, 0], [0, 1]] = Inr [[1, - 1], [- 1, 1]]"
  by (simp add: labels_normalized_def scaler_eval upt_rec real_sqrt_divide)

lemma labels_normalized_example_swapped:
  "labels_normalized [[0, 1], [1, 0]] = Inr [[- 1, 1], [1, - 1]]"
  by (simp add: labels_normalized_def scaler_eval upt_rec real_sqrt_divide)

lemma data_scaled_example_diagonal:
  "data_scaled [[2, 0], [0, 2]] = Inr [[2, 0], [0, 2]]"
  by (simp add: data_scaled_def scaler_eval upt_rec)

lemma pattern_example: "pattern [[1, 0], [0, 1]] [[0, 1, 2], [4, 1, 0]] = Inr [- 2, 0, 2]"
  by (simp add: pattern_def labels_normalized_example data_scaled_example bind_err_def
      vecmat_def dot_def n_samples_def n_features_def column_def upt_rec)

section \<open>Presence of a term\<close>

text \<open>
  Claim C10. For every non-negative feature matrix, the scaler divides each column by a
  strictly positive scale, so the scaled entry is greater than zero exactly where the raw
  entry is nonzero: \<open>(data_scaled > 0)\<close> is the presence indicator of the raw matrix,
  and the relevance scores computed from \<open>data_scaled\<close> are those computed from the raw
  matrix, whatever the signs and the pattern.
\<close>

theorem presence_independent_of_scaling:
  assumes "has_shape X_test n d" "0 < n" "0 < d"
    and "list_all (list_all (\<lambda>x. 0 \<le> x)) X_test"
    and "data_scaled X_test = Inr ds"
  shows "list_all (\<lambda>s. 0 < s) (scaler_scale X_test)
       \<and> (\<forall>i<n. \<forall>j<d. (ds ! i ! j > 0) = (X_test ! i ! j \<noteq> 0))
       \<and> greater_zero ds = greater_zero X_test
       \<and> word_scores sign ds pat = word_scores sign X_test pat"
proof -
  have ft: "fit_transform False X_test = Inr ds"
    using assms(5) by (simp add: data_scaled_def)
  have pos: "list_all (\<lambda>s. 0 < s) (scaler_scale X_test)"
    by (simp add: scaler_scale_def scaler_var_def list_all_iff scale_pos)
  have gz: "greater_zero ds = greater_zero X_test"
    by (rule greater_zero_scaled [OF assms(1-3) ft])
  have entries: "(ds ! i ! j > 0) = (X_test ! i ! j \<noteq> 0)" if "i < n" "j < d" for i j
  proof -
    have "0 \<le> X_test ! i ! j"
      using assms(1,4) that has_shape_row [OF assms(1) that(1)]
      by (auto simp: has_shape_def list_all_length)
    then show ?thesis
      using fit_transform_entry [OF assms(1-3) ft that] scale_pos [of "column X_test j"]
      by (auto simp: zero_less_divide_iff)
  qed
  have "word_scores sign ds pat = word_scores sign X_test pat"
    by (simp add: word_scores_def gz)
  with pos gz entries show ?thesis by blast
qed

theorem presence_independent_of_scaling_witness:
  "has_shape [[0, 1, 2], [4, 1, 0]] 2 3
   \<and> list_all (list_all (\<lambda>x. 0 \<le> x)) [[0, 1, 2], [4, 1, 0 :: real]]
   \<and> data_scaled [[0, 1, 2], [4, 1, 0]] = Inr [[0, 1, 2], [2, 1, 0]]
   \<and> greater_zero [[0, 1, 2], [2, 1, 0]] = greater_zero [[0, 1, 2], [4, 1, 0]]
   \<and> word_scores [1, - 1] [[0, 1, 2], [2, 1, 0]] [5, 6, 7]
       = word_scores [1, - 1] [[0, 1, 2], [4, 1, 0]] [5, 6, 7]"
proof -
  have shape: "has_shape [[0, 1, 2], [4, 1, 0]] 2 3"
    by (simp add: has_shape_def)
  have nonneg: "list_all (list_all (\<lambda>x. 0 \<le> x)) [[0, 1, 2], [4, 1, 0 :: real]]"
    by simp
  note ds = data_scaled_example
  from presence_independent_of_scaling [OF shape _ _ nonneg ds, of "[1, - 1]" "[5, 6, 7]"]
  show ?thesis
    using shape nonneg ds by simp
qed

text \<open>
  Claim C3. For every document row \<open>i\<close> and every vocabulary index \<open>j\<close>, the relevance
  score is \<open>prediction_sign[i] * indicator(data_scaled[i,j] > 0) * pattern[j]\<close>, the
  indicator being 1 where the scaled entry is greater than zero and 0 elsewhere; so a
  score is nonzero only where the term occurs in the document (its raw entry is
  positive). The computation raises no error on arrays of matching shapes.
\<close>

theorem word_scores_elementwise:
  assumes "has_shape X_test n d" "0 < n" "0 < d"
    and "data_scaled X_test = Inr ds" "length sign = n" "length pat = d"
  shows "\<exists>ws. word_scores sign ds pat = Inr ws \<and> has_shape ws n d
          \<and> (\<forall>i<n. \<forall>j<d.
                ws ! i ! j = sign ! i * (if ds ! i ! j > 0 then 1 else 0) * pat ! j
                \<and> (ws ! i ! j \<noteq> 0 \<longrightarrow> X_test ! i ! j > 0))"
proof -
  let ?ws = "map (\<lambda>i. map (\<lambda>j. sign ! i * (if ds ! i ! j > 0 then 1 else 0) * pat ! j) [0..<d])
                 [0..<n]"
  have ft: "fit_transform False X_test = Inr ds"
    using assms(4) by (simp add: data_scaled_def)
  have shape: "has_shape ds n d"
    by (rule fit_transform_shape [OF assms(1-3) ft])
  have ws: "word_scores sign ds pat = Inr ?ws"
    by (rule word_scores_closed_form [OF shape assms(2,5,6)])
  have "has_shape ?ws n d"
    by (simp add: has_shape_def list_all_iff)
  moreover have "?ws ! i ! j = sign ! i * (if ds ! i ! j > 0 then 1 else 0) * pat ! j"
    if "i < n" "j < d" for i j
    using that by simp
  moreover have "X_test ! i ! j > 0" if "i < n" "j < d" "?ws ! i ! j \<noteq> 0" for i j
  proof -
    have "ds ! i ! j > 0"
      using that by (simp split: if_splits)
    then show ?thesis
      using fit_transform_entry [OF assms(1-3) ft that(1,2)] scale_pos [of "column X_test j"]
      by (simp add: zero_less_divide_iff)
  qed
  ultimately show ?thesis
    using ws by blast
qed

theorem word_scores_elementwise_witness:
  "has_shape [[0, 1, 2], [4, 1, 0]] 2 3
   \<and> data_scaled [[0, 1, 2], [4, 1, 0]] = Inr [[0, 1, 2], [2, 1, 0]]
   \<and> (\<exists>ws. word_scores [1, - 1] [[0, 1, 2], [2, 1, 0]] [5, 6, 7] = Inr ws
          \<and> ws ! 1 ! 0 = - 1 * (if [[0, 1, 2], [2, 1, 0 :: real]] ! 1 ! 0 > 0 then 1 else 0) * 5
          \<and> (ws ! 1 ! 0 \<noteq> 0 \<longrightarrow> [[0, 1, 2], [4, 1, 0 :: real]] ! 1 ! 0 > 0))"
proof -
  have shape: "has_shape [[0, 1, 2], [4, 1, 0]] 2 3"
    by (simp add: has_shape_def)
  note ds = data_scaled_example
  from word_scores_elementwise [OF shape _ _ ds, of "[1, - 1]" "[5, 6, 7]"]
  obtain ws where ws: "word_scores [1, - 1] [[0, 1, 2], [2, 1, 0]] [5, 6, 7] = Inr ws"
    and entries: "\<forall>i<2. \<forall>j<3.
        ws ! i ! j = [1, - 1] ! i * (if [[0, 1, 2], [2, 1, 0 :: real]] ! i ! j > 0 then 1 else 0)
                     * [5, 6, 7] ! j
        \<and> (ws ! i ! j \<noteq> 0 \<longrightarrow> [[0, 1, 2], [4, 1, 0 :: real]] ! i ! j > 0)"
    by auto
  from entries have "ws ! 1 ! 0 = [1, - 1] ! 1 * (if [[0, 1, 2], [2, 1, 0 :: real]] ! 1 ! 0 > 0 then 1 else 0)
                     * [5, 6, 7] ! 0
        \<and> (ws ! 1 ! 0 \<noteq> 0 \<longrightarrow> [[0, 1, 2], [4, 1, 0 :: real]] ! 1 ! 0 > 0)"
    by (metis (no_types) one_less_numeral_iff semiring_norm(76) zero_less_numeral)
  then show ?thesis
    using shape ds ws by simp
qed

section \<open>Pattern estimation\<close>

text \<open>
  Claim C1, as stated, fails for every class but the first: the notebook computes one
  pattern, from column 0 of the standardized predictions. For the two-class prediction
  matrix below it is \<open>[-2, 2]\<close>; the product for column 1, \<open>[2, -2]\<close>, is a different
  vector and is not computed.
\<close>

theorem pattern_is_projection_counterexample:
  "n_features [[0, 1], [1, 0]] = 2
   \<and> labels_normalized [[0, 1], [1, 0]] = Inr [[- 1, 1], [1, - 1]]
   \<and> data_scaled [[2, 0], [0, 2]] = Inr [[2, 0], [0, 2]]
   \<and> pattern [[0, 1], [1, 0]] [[2, 0], [0, 2]] = Inr [- 2, 2]
   \<and> vecmat (column [[- 1, 1], [1, - 1]] 1) [[2, 0], [0, 2]] = Inr [2, - 2]"
  by (simp add: labels_normalized_example_swapped data_scaled_example_diagonal pattern_def
      bind_err_def vecmat_def dot_def n_samples_def n_features_def column_def upt_rec)

text \<open>
  Claim C1, amended. For every prediction matrix with \<open>n\<close> rows and at least one class
  column and every feature matrix with \<open>n\<close> rows and \<open>d\<close> columns, the notebook's pattern
  is the pattern of the class in column 0 (the only class it computes a pattern for):
  the product of column 0 of the standardized predictions, transposed, with the scaled
  feature matrix, a vector of length \<open>d\<close> whose entry \<open>j\<close> is the sum over the documents
  \<open>i\<close> of \<open>labels_normalized[i,0] * data_scaled[i,j]\<close>. The last conjunct writes the two
  scaled factors out on the inputs.
\<close>

theorem pattern_is_projection:
  assumes "has_shape predictions_proba n m" "has_shape X_test n d" "0 < n" "0 < m" "0 < d"
  shows "\<exists>lab ds pat.
           labels_normalized predictions_proba = Inr lab \<and> data_scaled X_test = Inr ds
         \<and> pattern predictions_proba X_test = Inr pat \<and> length pat = d
         \<and> (\<forall>j<d. pat ! j = (\<Sum>i<n. lab ! i ! 0 * ds ! i ! j))
         \<and> (\<forall>j<d. pat ! j =
               (\<Sum>i<n. (predictions_proba ! i ! 0 - mean (column predictions_proba 0))
                         / handle_zeros_in_scale (sqrt (var (column predictions_proba 0)))
                       * (X_test ! i ! j / handle_zeros_in_scale (sqrt (var (column X_test j))))))"
proof -
  obtain lab where lab: "fit_transform True predictions_proba = Inr lab"
    using fit_transform_succeeds [OF assms(1,3,4)] by blast
  obtain ds where ds: "fit_transform False X_test = Inr ds"
    using fit_transform_succeeds [OF assms(2,3,5)] by blast
  let ?pat = "map (\<lambda>j. \<Sum>i<n. lab ! i ! 0 * ds ! i ! j) [0..<d]"
  have pat: "pattern predictions_proba X_test = Inr ?pat"
    using pattern_closed_form [OF assms] lab ds
    by (simp add: labels_normalized_def data_scaled_def)
  have explicit: "?pat ! j =
      (\<Sum>i<n. (predictions_proba ! i ! 0 - mean (column predictions_proba 0))
                / handle_zeros_in_scale (sqrt (var (column predictions_proba 0)))
              * (X_test ! i ! j / handle_zeros_in_scale (sqrt (var (column X_test j)))))"
    if "j < d" for j
  proof -
    have "lab ! i ! 0 * ds ! i ! j
        = (predictions_proba ! i ! 0 - mean (column predictions_proba 0))
            / handle_zeros_in_scale (sqrt (var (column predictions_proba 0)))
          * (X_test ! i ! j / handle_zeros_in_scale (sqrt (var (column X_test j))))"
      if "i < n" for i
      using fit_transform_entry [OF assms(1,3,4) lab that assms(4)]
            fit_transform_entry [OF assms(2,3,5) ds that \<open>j < d\<close>]
      by simp
    then show ?thesis
      using that by simp
  qed
  have "length ?pat = d" by simp
  moreover have "\<forall>j<d. ?pat ! j = (\<Sum>i<n. lab ! i ! 0 * ds ! i ! j)" by simp
  ultimately show ?thesis
    using lab ds pat explicit
    unfolding labels_normalized_def data_scaled_def by blast
qed

theorem pattern_is_projection_witness:
  "has_shape [[1, 0], [0, 1]] 2 2 \<and> has_shape [[0, 1, 2], [4, 1, 0]] 2 3
   \<and> (\<exists>lab ds pat.
           labels_normalized [[1, 0], [0, 1]] = Inr lab
         \<and> data_scaled [[0, 1, 2], [4, 1, 0]] = Inr ds
         \<and> pattern [[1, 0], [0, 1]] [[0, 1, 2], [4, 1, 0]] = Inr pat \<and> length pat = 3
         \<and> (\<forall>j<3. pat ! j = (\<Sum>i<2. lab ! i ! 0 * ds ! i ! j))
         \<and> (\<forall>j<3. pat ! j =
               (\<Sum>i<2. ([[1, 0], [0, 1]] ! i ! 0 - mean (column [[1, 0], [0, 1]] 0))
                         / handle_zeros_in_scale (sqrt (var (column [[1, 0], [0, 1]] 0)))
                       * ([[0, 1, 2], [4, 1, 0]] ! i ! j
                          / handle_zeros_in_scale (sqrt (var (column [[0, 1, 2], [4, 1, 0]] j)))))))"
proof -
  have p: "has_shape [[1, 0], [0, 1]] 2 2"
    by (simp add: has_shape_def)
  have x: "has_shape [[0, 1, 2], [4, 1, 0]] 2 3"
    by (simp add: has_shape_def)
  from pattern_is_projection [OF p x] p x show ?thesis
    by simp
qed

section \<open>The two scaling steps\<close>

text \<open>
  Claim C2, as stated, fails on columns of zero variance: the scaler divides such a
  column by one, so a constant prediction column is standardized to all zeros, of
  variance 0 and not 1, and a constant feature column (here a term that occurs in no
  document) keeps its variance 0.
\<close>

theorem scaling_asymmetric_counterexample:
  "labels_normalized [[1, 0], [1, 0], [1, 0]] = Inr [[0, 0], [0, 0], [0, 0]]
   \<and> var (column [[0, 0], [0, 0], [0, 0]] 0) = 0
   \<and> data_scaled [[0, 1], [0, 3]] = Inr [[0, 1], [0, 3]]
   \<and> var (column [[0, 1], [0, 3]] 0) = 0"
  by (simp add: labels_normalized_def data_scaled_def scaler_eval upt_rec)

text \<open>
  Claim C2, amended. Every prediction column is centred to mean 0, and has variance 1
  (population variance) after scaling unless its variance was 0, in which case it stays
  0. Every feature column is divided by its standard deviation only (by 1 when the
  standard deviation is 0), with no mean subtraction; so each scaled feature column
  has variance 1 unless its variance was 0, and every zero entry stays zero.
\<close>

theorem scaling_asymmetric:
  assumes "has_shape predictions_proba n m" "has_shape X_test n d" "0 < n" "0 < m" "0 < d"
  shows "\<exists>lab ds.
           labels_normalized predictions_proba = Inr lab \<and> data_scaled X_test = Inr ds
         \<and> (\<forall>c<m. mean (column lab c) = 0
                  \<and> var (column lab c) = (if var (column predictions_proba c) = 0 then 0 else 1))
         \<and> (\<forall>j<d. var (column ds j) = (if var (column X_test j) = 0 then 0 else 1)
                  \<and> (\<forall>i<n. ds ! i ! j = X_test ! i ! j
                                 / (if var (column X_test j) = 0 then 1
                                    else sqrt (var (column X_test j)))
                           \<and> (X_test ! i ! j = 0 \<longrightarrow> ds ! i ! j = 0)))"
proof -
  obtain lab where lab: "fit_transform True predictions_proba = Inr lab"
    using fit_transform_succeeds [OF assms(1,3,4)] by blast
  obtain ds where ds: "fit_transform False X_test = Inr ds"
    using fit_transform_succeeds [OF assms(2,3,5)] by blast
  have "mean (column lab c) = 0" if "c < m" for c
    by (rule scaled_column_mean [OF assms(1,3,4) lab that])
  moreover have "var (column lab c) = (if var (column predictions_proba c) = 0 then 0 else 1)"
    if "c < m" for c
    by (rule scaled_column_var [OF assms(1,3,4) lab that])
  moreover have "var (column ds j) = (if var (column X_test j) = 0 then 0 else 1)"
    if "j < d" for j
    by (rule scaled_column_var [OF assms(2,3,5) ds that])
  moreover have "ds ! i ! j = X_test ! i ! j
        / (if var (column X_test j) = 0 then 1 else sqrt (var (column X_test j)))
      \<and> (X_test ! i ! j = 0 \<longrightarrow> ds ! i ! j = 0)"
    if "i < n" "j < d" for i j
    using fit_transform_entry [OF assms(2,3,5) ds that]
    by (simp add: handle_zeros_sqrt)
  ultimately show ?thesis
    using lab ds unfolding labels_normalized_def data_scaled_def by blast
qed

theorem scaling_asymmetric_witness:
  "has_shape [[1, 0], [0, 1]] 2 2 \<and> has_shape [[0, 1, 2], [4, 1, 0]] 2 3
   \<and> (\<exists>lab ds.
           labels_normalized [[1, 0], [0, 1]] = Inr lab
         \<and> data_scaled [[0, 1, 2], [4, 1, 0]] = Inr ds
         \<and> (\<forall>c<2. mean (column lab c) = 0
                  \<and> var (column lab c) = (if var (column [[1, 0], [0, 1]] c) = 0 then 0 else 1))
         \<and> (\<forall>j<3. var (column ds j) = (if var (column [[0, 1, 2], [4, 1, 0]] j) = 0 then 0 else 1)
                  \<and> (\<forall>i<2. ds ! i ! j = [[0, 1, 2], [4, 1, 0]] ! i ! j
                                 / (if var (column [[0, 1, 2], [4, 1, 0]] j) = 0 then 1
                                    else sqrt (var (column [[0, 1, 2], [4, 1, 0]] j)))
                           \<and> ([[0, 1, 2], [4, 1, 0 :: real]] ! i ! j = 0 \<longrightarrow> ds ! i ! j = 0))))"
proof -
  have p: "has_shape [[1, 0], [0, 1]] 2 2"
    by (simp add: has_shape_def)
  have x: "has_shape [[0, 1, 2], [4, 1, 0]] 2 3"
    by (simp add: has_shape_def)
  from scaling_asymmetric [OF p x] p x show ?thesis
    by simp
qed

text \<open>
  Claim C9. Scaling the features is idempotent: a feature matrix whose columns all have
  variance 1 is returned unchanged, and so is every matrix that the scaling step has
  produced. (Over the real numbers the equality is exact.)
\<close>

theorem feature_scaling_idempotent:
  assumes "has_shape X_test n d" "0 < n" "0 < d"
  shows "(list_all (\<lambda>j. var (column X_test j) = 1) [0..<d] \<longrightarrow> data_scaled X_test = Inr X_test)
       \<and> (\<forall>ds. data_scaled X_test = Inr ds \<longrightarrow> data_scaled ds = Inr ds)"
proof -
  have "data_scaled X_test = Inr X_test"
    if "list_all (\<lambda>j. var (column X_test j) = 1) [0..<d]"
    unfolding data_scaled_def
    using that by (intro fit_transform_fixed [OF assms]) (simp add: list_all_iff)
  moreover have "data_scaled ds = Inr ds" if "data_scaled X_test = Inr ds" for ds
  proof -
    have ft: "fit_transform False X_test = Inr ds"
      using that by (simp add: data_scaled_def)
    have shape: "has_shape ds n d"
      by (rule fit_transform_shape [OF assms ft])
    have "\<forall>j<d. var (column ds j) = 0 \<or> var (column ds j) = 1"
      using scaled_column_var [OF assms ft] by simp
    then show ?thesis
      unfolding data_scaled_def by (rule fit_transform_fixed [OF shape assms(2,3)])
  qed
  ultimately show ?thesis by blast
qed

theorem feature_scaling_idempotent_witness:
  "has_shape [[0, 1, 2], [4, 1, 0]] 2 3
   \<and> data_scaled [[0, 1, 2], [4, 1, 0]] = Inr [[0, 1, 2], [2, 1, 0]]
   \<and> data_scaled [[0, 1, 2], [2, 1, 0]] = Inr [[0, 1, 2], [2, 1, 0]]"
proof -
  have x: "has_shape [[0, 1, 2], [4, 1, 0]] 2 3"
    by (simp add: has_shape_def)
  from feature_scaling_idempotent [OF x] data_scaled_example
  have "data_scaled [[0, 1, 2], [2, 1, 0]] = Inr [[0, 1, 2], [2, 1, 0]]"
    by simp
  with x data_scaled_example show ?thesis
    by simp
qed

section \<open>A prediction column of zero variance\<close>

text \<open>
  Claim C5, as stated, fails: on the constant prediction matrix \<open>[[1,0],[1,0],[1,0]]\<close> the
  pattern estimation raises no error; it returns the pattern of zeros.
\<close>

theorem degenerate_prediction_column_counterexample:
  "pattern [[1, 0], [1, 0], [1, 0]] [[0, 1], [4, 1], [0, 2]] = Inr [0, 0]"
  by (simp add: pattern_def labels_normalized_def data_scaled_def bind_err_def vecmat_def
      dot_def scaler_eval upt_rec)

text \<open>
  Claim C5, amended. If a prediction column has zero variance, pattern estimation still
  returns a pattern of length \<open>d\<close> and raises no error: the scaler replaces the zero
  scale by one, so every scale it divides by is strictly positive (no division by zero
  occurs). When the column of zero variance is column 0, the pattern is all zeros.
\<close>

theorem degenerate_prediction_column:
  assumes "has_shape predictions_proba n m" "has_shape X_test n d" "0 < n" "0 < m" "0 < d"
    and "c < m" "var (column predictions_proba c) = 0"
  shows "list_all (\<lambda>s. 0 < s) (scaler_scale predictions_proba)
       \<and> list_all (\<lambda>s. 0 < s) (scaler_scale X_test)
       \<and> (\<exists>pat. pattern predictions_proba X_test = Inr pat \<and> length pat = d
                \<and> (c = 0 \<longrightarrow> pat = replicate d 0))"
proof -
  obtain lab where lab: "fit_transform True predictions_proba = Inr lab"
    using fit_transform_succeeds [OF assms(1,3,4)] by blast
  obtain ds where ds: "fit_transform False X_test = Inr ds"
    using fit_transform_succeeds [OF assms(2,3,5)] by blast
  let ?pat = "map (\<lambda>j. \<Sum>i<n. lab ! i ! 0 * ds ! i ! j) [0..<d]"
  have pat: "pattern predictions_proba X_test = Inr ?pat"
    using pattern_closed_form [OF assms(1-5)] lab ds
    by (simp add: labels_normalized_def data_scaled_def)
  have zero: "?pat = replicate d 0" if "c = 0"
  proof -
    have const: "\<forall>x\<in>set (column predictions_proba 0). x = mean (column predictions_proba 0)"
      using var_zero_iff [OF column_nonempty [OF assms(1,3)], of 0] assms(7) that by simp
    have "lab ! i ! 0 = 0" if "i < n" for i
    proof -
      have "predictions_proba ! i ! 0 \<in> set (column predictions_proba 0)"
        using that assms(1) by (auto simp: column_def has_shape_def)
      then show ?thesis
        using fit_transform_entry [OF assms(1,3,4) lab that assms(4)] const by simp
    qed
    then show ?thesis
      by (intro nth_equalityI) simp_all
  qed
  have "list_all (\<lambda>s. 0 < s) (scaler_scale M)" for M
    by (simp add: scaler_scale_def scaler_var_def list_all_iff scale_pos)
  moreover have "length ?pat = d" by simp
  ultimately show ?thesis
    using pat zero by blast
qed

theorem degenerate_prediction_column_witness:
  "has_shape [[1, 0], [1, 0], [1, 0]] 3 2 \<and> has_shape [[0, 1], [4, 1], [0, 2]] 3 2
   \<and> var (column [[1, 0], [1, 0], [1, 0]] 0) = 0
   \<and> list_all (\<lambda>s. 0 < s) (scaler_scale [[1, 0], [1, 0], [1, 0]])
   \<and> list_all (\<lambda>s. 0 < s) (scaler_scale [[0, 1], [4, 1], [0, 2]])
   \<and> (\<exists>pat. pattern [[1, 0], [1, 0], [1, 0]] [[0, 1], [4, 1], [0, 2]] = Inr pat
            \<and> length pat = 2 \<and> pat = replicate 2 0)"
proof -
  have p: "has_shape [[1, 0], [1, 0], [1, 0]] 3 2"
    by (simp add: has_shape_def)
  have x: "has_shape [[0, 1], [4, 1], [0, 2]] 3 2"
    by (simp add: has_shape_def)
  have v: "var (column [[1, 0], [1, 0], [1, 0]] 0) = 0"
    by (simp add: column_def var_def mean_def)
  from degenerate_prediction_column [OF p x _ _ _ _ v] p x v show ?thesis
    by simp
qed

section \<open>Reordering the documents leaves the pattern unchanged\<close>

text \<open>
  Claim C7, as stated, fails in one part: the notebook does not return one vector per
  class. For the two-class prediction matrix below it returns the single vector
  \<open>[-2, 0, 2]\<close>, the product for column 0; the product for column 1, \<open>[2, 0, -2]\<close>, is
  not computed.
\<close>

theorem pattern_permutation_invariant_counterexample:
  "n_features [[1, 0], [0, 1]] = 2
   \<and> labels_normalized [[1, 0], [0, 1]] = Inr [[1, - 1], [- 1, 1]]
   \<and> data_scaled [[0, 1, 2], [4, 1, 0]] = Inr [[0, 1, 2], [2, 1, 0]]
   \<and> pattern [[1, 0], [0, 1]] [[0, 1, 2], [4, 1, 0]] = Inr [- 2, 0, 2]
   \<and> vecmat (column [[1, - 1], [- 1, 1]] 1) [[0, 1, 2], [2, 1, 0]] = Inr [2, 0, - 2]"
  by (simp add: labels_normalized_example data_scaled_example pattern_example
      vecmat_def dot_def n_samples_def n_features_def column_def upt_rec)

text \<open>
  Claim C7, amended. For every prediction matrix and feature matrix with the same
  number of rows, pattern estimation returns a single vector of length \<open>d\<close> (the
  pattern of the class in column 0), and applying the same row permutation to the
  prediction matrix and to the feature matrix leaves that vector unchanged.
\<close>

theorem pattern_permutation_invariant:
  assumes "has_shape predictions_proba n m" "has_shape X_test n d" "0 < n" "0 < m" "0 < d"
    and "mset perm = mset [0..<n]"
  shows "pattern (take_rows perm predictions_proba) (take_rows perm X_test)
           = pattern predictions_proba X_test
       \<and> (\<exists>pat. pattern predictions_proba X_test = Inr pat \<and> length pat = d)"
proof -
  let ?P = "take_rows perm predictions_proba" and ?X = "take_rows perm X_test"
  have shapeP: "has_shape ?P n m"
    by (rule take_rows_shape [OF assms(1,6)])
  have shapeX: "has_shape ?X n d"
    by (rule take_rows_shape [OF assms(2,6)])
  have meanP: "mean (column ?P 0) = mean (column predictions_proba 0)"
    by (rule mean_mset [OF take_rows_column [OF assms(1,6)]])
  have varP: "var (column ?P 0) = var (column predictions_proba 0)"
    by (rule var_mset [OF take_rows_column [OF assms(1,6)]])
  have varX: "var (column ?X j) = var (column X_test j)" for j
    by (rule var_mset [OF take_rows_column [OF assms(2,6)]])
  have "(\<Sum>i<n. (?P ! i ! 0 - mean (column ?P 0))
                 / handle_zeros_in_scale (sqrt (var (column ?P 0)))
               * (?X ! i ! j / handle_zeros_in_scale (sqrt (var (column ?X j)))))
      = (\<Sum>k<n. (predictions_proba ! k ! 0 - mean (column predictions_proba 0))
                 / handle_zeros_in_scale (sqrt (var (column predictions_proba 0)))
               * (X_test ! k ! j / handle_zeros_in_scale (sqrt (var (column X_test j)))))"
    (is "?lhs = ?rhs") for j
  proof -
    let ?h = "\<lambda>k. (predictions_proba ! k ! 0 - mean (column predictions_proba 0))
                 / handle_zeros_in_scale (sqrt (var (column predictions_proba 0)))
               * (X_test ! k ! j / handle_zeros_in_scale (sqrt (var (column X_test j))))"
    have "?lhs = (\<Sum>i<n. ?h (perm ! i))"
      by (intro sum.cong refl) (simp add: meanP varP varX take_rows_nth [OF assms(6)])
    also have "\<dots> = ?rhs"
      by (rule sum_reindex_perm [OF assms(6)])
    finally show ?thesis .
  qed
  then have "pattern ?P ?X = pattern predictions_proba X_test"
    unfolding pattern_explicit [OF shapeP shapeX assms(3-5)]
              pattern_explicit [OF assms(1-5)]
    by simp
  moreover have "\<exists>pat. pattern predictions_proba X_test = Inr pat \<and> length pat = d"
    unfolding pattern_explicit [OF assms(1-5)] by simp
  ultimately show ?thesis by blast
qed

theorem pattern_permutation_invariant_witness:
  "has_shape [[1, 0], [0, 1]] 2 2 \<and> has_shape [[0, 1, 2], [4, 1, 0]] 2 3
   \<and> mset [1, 0] = mset [0..<2]
   \<and> pattern [[0, 1], [1, 0]] [[4, 1, 0], [0, 1, 2]]
       = pattern [[1, 0], [0, 1]] [[0, 1, 2], [4, 1, 0]]
   \<and> (\<exists>pat. pattern [[1, 0], [0, 1]] [[0, 1, 2], [4, 1, 0]] = Inr pat \<and> length pat = 3)"
proof -
  have p: "has_shape [[1, 0], [0, 1]] 2 2"
    by (simp add: has_shape_def)
  have x: "has_shape [[0, 1, 2], [4, 1, 0]] 2 3"
    by (simp add: has_shape_def)
  have perm: "mset [1, 0] = mset [0..<2]"
    by (simp add: upt_rec)
  from pattern_permutation_invariant [OF p x _ _ _ perm] p x perm show ?thesis
    by (simp add: take_rows_def)
qed

section \<open>The top words of a document\<close>

text \<open>
  Claim C4, as stated, fails on ties: nothing in the notebook breaks a tie by the lowest
  index, the order of equal values is the one the sort happens to give. For the
  relevance vector with 0.9 at index 1 and 0.5 at the indices 2 and 5, and
  \<open>top_what = 2\<close>, a sort that keeps equal values in index order gives \<open>[1, 5]\<close> (the
  reversal \<open>[::-1]\<close> turns the order of the ties around), and a sort that puts them in
  descending index order gives \<open>[1, 2]\<close>. Both sorts meet the contract of \<open>argsort\<close>.
\<close>

theorem top_words_order_counterexample:
  "is_argsort [0, 9 / 10, 1 / 2, 0, 0, 1 / 2] (argsort_stable [0, 9 / 10, 1 / 2, 0, 0, 1 / 2])
   \<and> top_words argsort_stable [[0, 9 / 10, 1 / 2, 0, 0, 1 / 2]] 0 2 = Inr [1, 5]
   \<and> is_argsort [0, 9 / 10, 1 / 2, 0, 0, 1 / 2]
         (argsort_ties_reversed [0, 9 / 10, 1 / 2, 0, 0, 1 / 2])
   \<and> top_words argsort_ties_reversed [[0, 9 / 10, 1 / 2, 0, 0, 1 / 2]] 0 2 = Inr [1, 2]"
proof -
  have "top_words argsort_stable [[0, 9 / 10, 1 / 2, 0, 0, 1 / 2]] 0 2 = Inr [1, 5]"
    by (simp add: top_words_def argsort_stable_def slice_from_def)
  moreover have "top_words argsort_ties_reversed [[0, 9 / 10, 1 / 2, 0, 0, 1 / 2]] 0 2 = Inr [1, 2]"
    by (simp add: top_words_def argsort_ties_reversed_def slice_from_def)
  ultimately show ?thesis
    using argsort_stable_admissible argsort_ties_reversed_admissible by blast
qed

text \<open>
  Claim C4, amended. For every relevance row of length \<open>d\<close>, every \<open>top_what\<close> from 1 to
  \<open>d\<close> and every result that \<open>argsort\<close> may give on the row, \<open>top_words\<close> is a list of
  \<open>top_what\<close> distinct indices below \<open>d\<close>, in descending order of relevance value, and
  no index left out has a larger value than an index returned: these are indices of
  the \<open>top_what\<close> largest values. The order among indices of equal value, and which of
  them are returned when the cut falls among equal values, is not determined.
\<close>

theorem top_words_order:
  assumes "idx < length ws" "is_argsort (ws ! idx) (argsort (ws ! idx))"
    and "0 < k" "k \<le> int (length (ws ! idx))"
  shows "\<exists>tw. top_words argsort ws idx k = Inr tw \<and> length tw = nat k \<and> distinct tw
          \<and> (\<forall>i\<in>set tw. i < length (ws ! idx))
          \<and> (\<forall>a b. a < b \<and> b < length tw \<longrightarrow> ws ! idx ! (tw ! b) \<le> ws ! idx ! (tw ! a))
          \<and> (\<forall>j<length (ws ! idx). j \<notin> set tw
                 \<longrightarrow> (\<forall>i\<in>set tw. ws ! idx ! j \<le> ws ! idx ! i))"
proof -
  let ?tw = "rev (drop (length (ws ! idx) - nat k) (argsort (ws ! idx)))"
  have tw: "top_words argsort ws idx k = Inr ?tw"
    using top_words_drop [of idx ws argsort k, OF assms(1,2)] assms(3) by simp
  have "length ?tw = nat k"
    using rev_drop_properties(3) [OF assms(2)] assms(3,4) by simp
  with tw rev_drop_properties(1,2,4,5) [OF assms(2), of "length (ws ! idx) - nat k"]
  show ?thesis by blast
qed

theorem top_words_order_witness:
  "(0::nat) < length [[0, 9 / 10, 1 / 2, 0, 0, 1 / 2 :: real]]
   \<and> is_argsort ([[0, 9 / 10, 1 / 2, 0, 0, 1 / 2]] ! 0)
         (argsort_stable ([[0, 9 / 10, 1 / 2, 0, 0, 1 / 2]] ! 0))
   \<and> (0::int) < 2 \<and> (2::int) \<le> int (length ([[0, 9 / 10, 1 / 2, 0, 0, 1 / 2 :: real]] ! 0))
   \<and> (\<exists>tw. top_words argsort_stable [[0, 9 / 10, 1 / 2, 0, 0, 1 / 2]] 0 2 = Inr tw
          \<and> length tw = nat 2 \<and> distinct tw
          \<and> (\<forall>i\<in>set tw. i < length ([[0, 9 / 10, 1 / 2, 0, 0, 1 / 2 :: real]] ! 0))
          \<and> (\<forall>a b. a < b \<and> b < length tw
                 \<longrightarrow> [[0, 9 / 10, 1 / 2, 0, 0, 1 / 2 :: real]] ! 0 ! (tw ! b)
                     \<le> [[0, 9 / 10, 1 / 2, 0, 0, 1 / 2]] ! 0 ! (tw ! a))
          \<and> (\<forall>j<length ([[0, 9 / 10, 1 / 2, 0, 0, 1 / 2 :: real]] ! 0). j \<notin> set tw
                 \<longrightarrow> (\<forall>i\<in>set tw. [[0, 9 / 10, 1 / 2, 0, 0, 1 / 2 :: real]] ! 0 ! j
                                  \<le> [[0, 9 / 10, 1 / 2, 0, 0, 1 / 2]] ! 0 ! i)))"
proof -
  have h1: "(0::nat) < length [[0, 9 / 10, 1 / 2, 0, 0, 1 / 2 :: real]]"
    by simp
  have h2: "is_argsort ([[0, 9 / 10, 1 / 2, 0, 0, 1 / 2]] ! 0)
              (argsort_stable ([[0, 9 / 10, 1 / 2, 0, 0, 1 / 2]] ! 0))"
    by (rule argsort_stable_admissible)
  have h3: "(0::int) < 2"
    by simp
  have h4: "(2::int) \<le> int (length ([[0, 9 / 10, 1 / 2, 0, 0, 1 / 2 :: real]] ! 0))"
    by simp
  note c = top_words_order [of 0 "[[0, 9 / 10, 1 / 2, 0, 0, 1 / 2]]" argsort_stable 2,
      OF h1 h2 h3 h4]
  show ?thesis
    by (intro conjI h1 h2 h3 h4 c)
qed

text \<open>
  Claim C6, as stated, fails: \<open>top_words\<close> rejects no \<open>top_what\<close>. With \<open>top_what = 3\<close> on
  a row of length 2 it returns both indices; with \<open>top_what = -1\<close> it returns the row's
  indices without the lowest one; with \<open>top_what = 3\<close> on a row with two nonzero entries
  it returns three indices, the last of them of relevance zero. (The rows have no
  equal values, so every sort gives these results.)
\<close>

theorem top_words_never_rejects_counterexample:
  "top_words argsort_stable [[9 / 10, 1 / 2]] 0 3 = Inr [0, 1]
   \<and> top_words argsort_stable [[9 / 10, 1 / 2]] 0 (- 1) = Inr [0]
   \<and> top_words argsort_stable [[9 / 10, 0, 1 / 2]] 0 3 = Inr [0, 2, 1]"
  by (simp add: top_words_def argsort_stable_def slice_from_def)

text \<open>
  Claim C6, amended. For every row index in range and every result that \<open>argsort\<close> may
  give on the row, \<open>top_words\<close> raises no error, whatever \<open>top_what\<close> is and however many
  entries of the row are nonzero. Its result is always a list of distinct indices
  below \<open>d\<close> in descending order of relevance value, and no index left out has a larger
  value than an index returned. For \<open>top_what\<close> from 1 to \<open>d\<close> it has exactly \<open>top_what\<close>
  indices, so it contains an index of relevance zero when fewer than \<open>top_what\<close>
  entries are nonzero; for \<open>top_what\<close> above \<open>d\<close> it is all \<open>d\<close> indices; for negative
  \<open>top_what\<close> it has \<open>d - |top_what|\<close> indices (none when that is negative), those left
  after dropping \<open>|top_what|\<close> of the lowest values.
\<close>

theorem top_words_never_rejects:
  assumes "idx < length ws" "is_argsort (ws ! idx) (argsort (ws ! idx))"
  shows "\<exists>tw. top_words argsort ws idx k = Inr tw \<and> distinct tw
          \<and> (\<forall>i\<in>set tw. i < length (ws ! idx))
          \<and> (\<forall>a b. a < b \<and> b < length tw \<longrightarrow> ws ! idx ! (tw ! b) \<le> ws ! idx ! (tw ! a))
          \<and> (\<forall>j<length (ws ! idx). j \<notin> set tw
                 \<longrightarrow> (\<forall>i\<in>set tw. ws ! idx ! j \<le> ws ! idx ! i))
          \<and> (0 < k \<and> k \<le> int (length (ws ! idx)) \<longrightarrow> length tw = nat k)
          \<and> (0 < k \<and> k \<le> int (length (ws ! idx))
               \<and> length (filter (\<lambda>x. x \<noteq> 0) (ws ! idx)) < nat k
               \<longrightarrow> (\<exists>i\<in>set tw. ws ! idx ! i = 0))
          \<and> (int (length (ws ! idx)) < k
               \<longrightarrow> length tw = length (ws ! idx) \<and> set tw = {0..<length (ws ! idx)})
          \<and> (k < 0 \<longrightarrow> length tw = length (ws ! idx) - nat (- k))"
proof -
  let ?xs = "ws ! idx"
  let ?m = "if 0 < k then length ?xs - nat k else nat (- k)"
  let ?tw = "rev (drop ?m (argsort ?xs))"
  have tw: "top_words argsort ws idx k = Inr ?tw"
    by (rule top_words_drop [of idx ws argsort k, OF assms])
  note props = rev_drop_properties [OF assms(2), of ?m]
  have len: "length ?tw = length ?xs - ?m"
    by (rule props(3))
  have exact: "length ?tw = nat k" if "0 < k \<and> k \<le> int (length ?xs)"
    using that len by auto
  have zero: "\<exists>i\<in>set ?tw. ?xs ! i = 0"
    if "0 < k \<and> k \<le> int (length ?xs) \<and> length (filter (\<lambda>x. x \<noteq> 0) ?xs) < nat k"
    using distinct_indices_reach_zero [OF props(1,2)] exact that by simp
  have all: "length ?tw = length ?xs \<and> set ?tw = {0..<length ?xs}" if "int (length ?xs) < k"
    using that is_argsort_set [OF assms(2)] is_argsort_length [OF assms(2)] by simp
  have neg: "length ?tw = length ?xs - nat (- k)" if "k < 0"
    using that len by auto
  show ?thesis
    using tw props(1,2,4,5) exact zero all neg by blast
qed

theorem top_words_never_rejects_witness:
  "(0::nat) < length [[9 / 10, 0, 1 / 2 :: real]]
   \<and> is_argsort ([[9 / 10, 0, 1 / 2]] ! 0) (argsort_stable ([[9 / 10, 0, 1 / 2]] ! 0))
   \<and> (0::int) < 3 \<and> (3::int) \<le> int (length ([[9 / 10, 0, 1 / 2 :: real]] ! 0))
   \<and> length (filter (\<lambda>x. x \<noteq> 0) ([[9 / 10, 0, 1 / 2 :: real]] ! 0)) < nat 3
   \<and> (\<exists>tw. top_words argsort_stable [[9 / 10, 0, 1 / 2]] 0 3 = Inr tw \<and> distinct tw
          \<and> length tw = nat 3 \<and> (\<exists>i\<in>set tw. [[9 / 10, 0, 1 / 2 :: real]] ! 0 ! i = 0))"
proof -
  have h1: "(0::nat) < length [[9 / 10, 0, 1 / 2 :: real]]"
    by simp
  have h2: "is_argsort ([[9 / 10, 0, 1 / 2]] ! 0) (argsort_stable ([[9 / 10, 0, 1 / 2]] ! 0))"
    by (rule argsort_stable_admissible)
  have h3: "(0::int) < 3 \<and> (3::int) \<le> int (length ([[9 / 10, 0, 1 / 2 :: real]] ! 0))"
    by simp
  have h4: "(0::int) < 3 \<and> (3::int) \<le> int (length ([[9 / 10, 0, 1 / 2 :: real]] ! 0))
      \<and> length (filter (\<lambda>x. x \<noteq> 0) ([[9 / 10, 0, 1 / 2 :: real]] ! 0)) < nat 3"
    by simp
  obtain tw where tw: "top_words argsort_stable [[9 / 10, 0, 1 / 2]] 0 3 = Inr tw"
    and d: "distinct tw"
    and len: "0 < (3::int) \<and> 3 \<le> int (length ([[9 / 10, 0, 1 / 2 :: real]] ! 0))
                \<longrightarrow> length tw = nat 3"
    and zero: "0 < (3::int) \<and> 3 \<le> int (length ([[9 / 10, 0, 1 / 2 :: real]] ! 0))
           \<and> length (filter (\<lambda>x. x \<noteq> 0) ([[9 / 10, 0, 1 / 2 :: real]] ! 0)) < nat 3
         \<longrightarrow> (\<exists>i\<in>set tw. [[9 / 10, 0, 1 / 2 :: real]] ! 0 ! i = 0)"
    using top_words_never_rejects [of 0 "[[9 / 10, 0, 1 / 2]]" argsort_stable 3, OF h1 h2]
    by (elim exE conjE)
  have "\<exists>tw. top_words argsort_stable [[9 / 10, 0, 1 / 2]] 0 3 = Inr tw \<and> distinct tw
          \<and> length tw = nat 3 \<and> (\<exists>i\<in>set tw. [[9 / 10, 0, 1 / 2 :: real]] ! 0 ! i = 0)"
    using tw d len [rule_format, OF h3] zero [rule_format, OF h4] by (intro exI [of _ tw] conjI)
  with h1 h2 h3 h4 show ?thesis
    by (intro conjI) simp_all
qed

end
